theory Spec2Isabelle
  imports Complex_Main "HOL-Library.Word" "HOL-Library.AList" "HOL-Library.Log_Nat"
begin

section \<open>Go runtime failures and basic types\<close>

text \<open>
  A run-time panic of the Go program is a value: every function of the model that can
  panic returns \<open>panic + 'a\<close>, with \<open>Inl\<close> for the panic.
\<close>

datatype panic =
    IndexOutOfRange
  | SliceBoundsOutOfRange
  | CloseOfClosedChannel
  | MakeNegativeLen

text \<open>Running one fallible call after another: the panic of the first is the result.\<close>

definition and_then :: "panic + 'a \<Rightarrow> ('a \<Rightarrow> panic + 'b) \<Rightarrow> panic + 'b" where
  "and_then r f = (case r of Inl e \<Rightarrow> Inl e | Inr x \<Rightarrow> f x)"

text \<open>Go's \<open>error\<close> values are opaque; the model keeps their message.\<close>

type_synonym err = string

text \<open>
  \<open>time.Duration\<close> is an \<open>int64\<close> count of nanoseconds. The table compares durations
  and computes with them in one place only, the boundaries, where the conversion from
  float64 keeps the result within \<open>int64\<close>.
\<close>

type_synonym Duration = int

definition Millisecond :: Duration where
  "Millisecond = 1000000"

section \<open>float64 and its conversion to \<open>time.Duration\<close>\<close>

text \<open>
  \<open>time.Duration(float64(k) * conf.LatencyGrowthFactor)\<close> is computed in binary64: the
  integer is converted to the nearest float64, the product is rounded to the nearest
  float64 (ties to even), and the conversion back truncates toward zero.

  A float64 is a rational, an infinity or NaN. \<open>Finite r\<close> stands for the float64 nearest
  to \<open>r\<close>, which is \<open>r\<close> itself when \<open>r\<close> is one (\<open>stored\<close>).
\<close>

datatype float64 = Finite rat | PosInf | NegInf | NaN

definition pow2 :: "int \<Rightarrow> rat" where
  "pow2 e = (if 0 \<le> e then 2 ^ nat e else 1 / 2 ^ nat (- e))"

text \<open>
  The binary exponent of a positive rational \<open>p / q\<close>: the difference of the bit lengths
  of \<open>p\<close> and \<open>q\<close>, or one less.
\<close>

definition floor_log2 :: "rat \<Rightarrow> int" where
  "floor_log2 x =
     (case quotient_of x of (p, q) \<Rightarrow>
        (let d = bitlen p - bitlen q in if pow2 d \<le> x then d else d - 1))"

definition round_half_even :: "rat \<Rightarrow> int" where
  "round_half_even y =
     (let f = \<lfloor>y\<rfloor>; d = y - of_int f
      in if d < 1 / 2 then f else if 1 / 2 < d then f + 1 else if even f then f else f + 1)"

text \<open>
  Rounding to binary64: 53 significant bits, the spacing of the subnormals below
  \<open>2 ^ -1022\<close>, and an infinity when the rounded magnitude reaches \<open>2 ^ 1024\<close>, that is
  when its binary exponent reaches 1024.
\<close>

definition round64 :: "rat \<Rightarrow> float64" where
  "round64 x =
     (if x = 0 then Finite 0
      else
        (let e = max (floor_log2 \<bar>x\<bar>) (- 1022);
             u = pow2 (e - 52);
             r = of_int (round_half_even (x / u)) * u
         in if 1024 \<le> floor_log2 \<bar>r\<bar> then (if 0 < x then PosInf else NegInf) else Finite r))"

definition float64_of_int :: "int \<Rightarrow> float64" where
  "float64_of_int k = round64 (of_int k)"

definition stored :: "float64 \<Rightarrow> float64" where
  "stored f = (case f of Finite r \<Rightarrow> round64 r | _ \<Rightarrow> f)"

fun fmul :: "float64 \<Rightarrow> float64 \<Rightarrow> float64" where
  "fmul NaN g = NaN"
| "fmul f NaN = NaN"
| "fmul (Finite a) (Finite b) = round64 (a * b)"
| "fmul (Finite a) PosInf = (if a = 0 then NaN else if 0 < a then PosInf else NegInf)"
| "fmul (Finite a) NegInf = (if a = 0 then NaN else if 0 < a then NegInf else PosInf)"
| "fmul PosInf (Finite b) = (if b = 0 then NaN else if 0 < b then PosInf else NegInf)"
| "fmul NegInf (Finite b) = (if b = 0 then NaN else if 0 < b then NegInf else PosInf)"
| "fmul PosInf PosInf = PosInf"
| "fmul PosInf NegInf = NegInf"
| "fmul NegInf PosInf = NegInf"
| "fmul NegInf NegInf = PosInf"

text \<open>
  A float64 that \<open>int64\<close> cannot hold (too large, an infinity, NaN) converts to a value
  that Go leaves to the implementation: \<open>indefinite\<close> is what the platform gives.
\<close>

definition Duration_of_float :: "(float64 \<Rightarrow> Duration) \<Rightarrow> float64 \<Rightarrow> Duration" where
  "Duration_of_float indefinite f =
     (case f of
        Finite v \<Rightarrow>
          (let t = (if v < 0 then \<lceil>v\<rceil> else \<lfloor>v\<rfloor>)
           in if - (2 ^ 63) \<le> t \<and> t < 2 ^ 63 then t else indefinite f)
      | _ \<Rightarrow> indefinite f)"

section \<open>rings.go: the ring\<close>

text \<open>\<open>type ring struct { peers []peer.ID }\<close>: the one field is the ring.\<close>

type_synonym 'p ring = "'p list"

definition ring_Add :: "'p \<Rightarrow> 'p ring \<Rightarrow> 'p ring" where
  "ring_Add pid r = r @ [pid]"

text \<open>
  \<open>ring.Remove\<close> ranges over \<open>r.peers\<close> and reassigns \<open>r.peers\<close> inside the loop. Go
  evaluates the range expression once: the loop runs over the \<open>n\<close> cells the slice had
  on entry, reading each cell from the backing array when its turn comes, while
  \<open>r.peers\<close> is the first \<open>l\<close> cells of the same array.

  \<open>append(r.peers[:i], r.peers[i+1:]...)\<close> never reallocates (the capacity is at least
  \<open>n\<close>): it moves cells \<open>i+1 .. l-1\<close> one place down and leaves every cell from \<open>l-1\<close>
  on as it was. \<open>shift_down i l arr\<close> is the array afterwards.
\<close>

definition shift_down :: "nat \<Rightarrow> nat \<Rightarrow> 'p list \<Rightarrow> 'p list" where
  "shift_down i l arr = take i arr @ drop (Suc i) (take l arr) @ drop (l - 1) arr"

text \<open>
  The slice expression \<open>r.peers[i+1:]\<close> panics when \<open>i + 1\<close> exceeds the current length
  \<open>l\<close> of \<open>r.peers\<close>; \<open>r.peers[:i]\<close> is within the capacity and does not.
\<close>

function ring_Remove_loop :: "'p \<Rightarrow> nat \<Rightarrow> nat \<Rightarrow> 'p list \<Rightarrow> nat \<Rightarrow> panic + 'p list" where
  "ring_Remove_loop pid i n arr l =
     (if i < n then
        (if arr ! i = pid then
           (if l < Suc i then Inl SliceBoundsOutOfRange
            else ring_Remove_loop pid (Suc i) n (shift_down i l arr) (l - 1))
         else ring_Remove_loop pid (Suc i) n arr l)
      else Inr (take l arr))"
  by pat_completeness auto
termination
  by (relation "measure (\<lambda>(pid, i, n, arr, l). n - i)") auto

declare ring_Remove_loop.simps [simp del]

definition ring_Remove :: "'p \<Rightarrow> 'p ring \<Rightarrow> panic + 'p ring" where
  "ring_Remove pid r = ring_Remove_loop pid 0 (length r) r (length r)"

text \<open>
  \<open>ring.Recommend\<close> and \<open>ringsRoutingTable.sample\<close> run the same loop:
  \<open>for i := 0; i < count && i < len(perm); i++\<close> visits \<open>perm[0]\<close>, ..., in order, that
  is the indices \<open>take count perm\<close>; the peer at each index is appended unless it is
  excluded. \<open>perm\<close> is what \<open>rand.Perm\<close> returned. The exclude map only ever holds
  \<open>true\<close>, so it is a set.
\<close>

fun pick_loop :: "'p list \<Rightarrow> 'p set \<Rightarrow> nat list \<Rightarrow> 'p list \<Rightarrow> panic + 'p list" where
  "pick_loop peers exclude [] recommended = Inr recommended"
| "pick_loop peers exclude (k # ks) recommended =
     (if k < length peers then
        pick_loop peers exclude ks
          (if peers ! k \<in> exclude then recommended else recommended @ [peers ! k])
      else Inl IndexOutOfRange)"

definition ring_Recommend :: "nat list \<Rightarrow> int \<Rightarrow> 'p set \<Rightarrow> 'p ring \<Rightarrow> panic + 'p list" where
  "ring_Recommend perm count exclude r = pick_loop r exclude (take (nat count) perm) []"

text \<open>
  What \<open>rand.Perm n\<close> can return, and what a \<open>range\<close> over a map can yield: the keys in
  any order, each once.
\<close>

definition is_Perm :: "nat list \<Rightarrow> nat \<Rightarrow> bool" where
  "is_Perm perm n = (sort perm = [0..<n])"

definition enumerates :: "'p list \<Rightarrow> 'p set \<Rightarrow> bool" where
  "enumerates order S = (distinct order \<and> set order = S)"

section \<open>rings.go: the routing table\<close>

record 'p RingsConfig =
  RingsCount :: int
  BaseLatency :: Duration
  LatencyGrowthFactor :: float64
  SampleSize :: int
  SamplePeriod :: Duration
  LatencyProbFn :: "'p \<Rightarrow> err + Duration"

text \<open>
  \<open>peerstore.Metrics\<close> is a library interface: the table calls \<open>RecordLatency\<close> and
  \<open>LatencyEWMA\<close> on it and nothing else. Its state is a type parameter and its two
  methods are parameters of the model.
\<close>

record ('p, 'm) Metrics =
  RecordLatency :: "'m \<Rightarrow> 'p \<Rightarrow> Duration \<Rightarrow> 'm"
  LatencyEWMA :: "'m \<Rightarrow> 'p \<Rightarrow> Duration"

datatype chan = Open | Closed

record ('p, 'm) ringsRoutingTable =
  conf :: "'p RingsConfig"
  peers :: "'p set"
  rings :: "'p ring list"
  latRanges :: "Duration list"
  metrics :: 'm
  shutdown :: chan

definition NewDefaultRingsConfig :: "('p \<Rightarrow> err + Duration) \<Rightarrow> 'p RingsConfig" where
  "NewDefaultRingsConfig probe =
     \<lparr>RingsCount = 8, BaseLatency = 8 * Millisecond, LatencyGrowthFactor = Finite 2,
      SampleSize = 16, SamplePeriod = 30 * 1000 * Millisecond, LatencyProbFn = probe\<rparr>"

text \<open>The loop \<open>for i := 1; i < conf.RingsCount; i++\<close>, by the iterations left.\<close>

fun latRanges_loop ::
  "(float64 \<Rightarrow> Duration) \<Rightarrow> float64 \<Rightarrow> nat \<Rightarrow> Duration \<Rightarrow> Duration list \<Rightarrow> Duration list" where
  "latRanges_loop indefinite g 0 k lr = lr"
| "latRanges_loop indefinite g (Suc n) k lr =
     latRanges_loop indefinite g n
       (Duration_of_float indefinite (fmul (float64_of_int k) (stored g))) (lr @ [k])"

text \<open>
  The constructor, given what the platform's conversion does out of range and the
  estimator \<open>peerstore.NewMetrics()\<close> returns.
\<close>

definition NewRingsRoutingTable ::
  "(float64 \<Rightarrow> Duration) \<Rightarrow> 'p RingsConfig \<Rightarrow> 'm \<Rightarrow> ('p, 'm) ringsRoutingTable" where
  "NewRingsRoutingTable indefinite c newMetrics =
     \<lparr>conf = c,
      peers = {},
      rings = replicate (nat (RingsCount c)) [],
      latRanges =
        latRanges_loop indefinite (LatencyGrowthFactor c) (nat (RingsCount c - 1)) (BaseLatency c) [0],
      metrics = newMetrics,
      shutdown = Open\<rparr>"

text \<open>
  The goroutine started by \<open>NewRingsRoutingTable\<close> is one \<open>select\<close> statement and no
  loop around it. Its input is the sequence of cases that become ready; its result is
  the table and how many times the body (\<open>refreshLatency\<close>, then \<open>populateRings\<close>) ran.
  With no case ready it is still blocked; after the first case it has returned, so
  later events are not looked at.
\<close>

datatype select_case = TimerFired | ShutdownClosed

fun refresh_task :: "('t \<Rightarrow> panic + 't) \<Rightarrow> select_case list \<Rightarrow> 't \<Rightarrow> (panic + 't) \<times> nat" where
  "refresh_task body [] t = (Inr t, 0)"
| "refresh_task body (TimerFired # evs) t = (body t, 1)"
| "refresh_task body (ShutdownClosed # evs) t = (Inr t, 0)"

text \<open>
  \<open>refreshLatency\<close>: \<open>pids\<close> is the peer set as the range over the map yields it, \<open>perm\<close>
  the permutation drawn. A failed probe is logged and skipped.
\<close>

fun sample_pids :: "'p list \<Rightarrow> nat list \<Rightarrow> panic + 'p list" where
  "sample_pids pids [] = Inr []"
| "sample_pids pids (k # ks) =
     (if k < length pids then
        (case sample_pids pids ks of Inl e \<Rightarrow> Inl e | Inr rest \<Rightarrow> Inr (pids ! k # rest))
      else Inl IndexOutOfRange)"

fun probe_all :: "('p, 'm) Metrics \<Rightarrow> 'p list \<Rightarrow> ('p, 'm) ringsRoutingTable \<Rightarrow> ('p, 'm) ringsRoutingTable" where
  "probe_all M [] t = t"
| "probe_all M (pid # sample) t =
     (case LatencyProbFn (conf t) pid of
        Inl e \<Rightarrow> probe_all M sample t
      | Inr latency \<Rightarrow>
          probe_all M sample (t\<lparr>metrics := RecordLatency M (metrics t) pid latency\<rparr>))"

definition refreshLatency ::
  "('p, 'm) Metrics \<Rightarrow> 'p list \<Rightarrow> nat list \<Rightarrow> ('p, 'm) ringsRoutingTable \<Rightarrow> panic + ('p, 'm) ringsRoutingTable" where
  "refreshLatency M pids perm t =
     (case sample_pids pids (take (nat (SampleSize (conf t))) perm) of
        Inl e \<Rightarrow> Inl e
      | Inr sample \<Rightarrow> Inr (probe_all M sample t))"

text \<open>
  \<open>populateRings\<close>. The inner loop \<open>for i := len(r.latRanges) - 1; i >= 0; i--\<close> takes
  the first \<open>i\<close>, from the top, with \<open>latency > r.latRanges[i]\<close>; \<open>find_ring\<close> is called
  with the number of indices still to try.
\<close>

fun find_ring :: "Duration \<Rightarrow> Duration list \<Rightarrow> nat \<Rightarrow> nat option" where
  "find_ring latency lr 0 = None"
| "find_ring latency lr (Suc i) =
     (if latency > lr ! i then Some i else find_ring latency lr i)"

fun populate_loop :: "('p \<Rightarrow> Duration) \<Rightarrow> Duration list \<Rightarrow> 'p list \<Rightarrow> 'p ring list \<Rightarrow> panic + 'p ring list" where
  "populate_loop estimate lr [] rs = Inr rs"
| "populate_loop estimate lr (pid # pids) rs =
     (case find_ring (estimate pid) lr (length lr) of
        None \<Rightarrow> populate_loop estimate lr pids rs
      | Some i \<Rightarrow>
          (if i < length rs then populate_loop estimate lr pids (rs[i := ring_Add pid (rs ! i)])
           else Inl IndexOutOfRange))"

definition populateRings ::
  "('p, 'm) Metrics \<Rightarrow> 'p list \<Rightarrow> ('p, 'm) ringsRoutingTable \<Rightarrow> panic + ('p, 'm) ringsRoutingTable" where
  "populateRings M order t =
     (case populate_loop (LatencyEWMA M (metrics t)) (latRanges t) order
             (replicate (nat (RingsCount (conf t))) []) of
        Inl e \<Rightarrow> Inl e
      | Inr rs \<Rightarrow> Inr (t\<lparr>rings := rs\<rparr>))"

text \<open>
  The body of the background task: \<open>r.refreshLatency()\<close>, then \<open>r.populateRings()\<close>,
  each with its own range over the peer set. The goroutine is \<open>refresh_task\<close> of it.
\<close>

definition refresh_body ::
  "('p, 'm) Metrics \<Rightarrow> 'p list \<Rightarrow> nat list \<Rightarrow> 'p list \<Rightarrow> ('p, 'm) ringsRoutingTable
     \<Rightarrow> panic + ('p, 'm) ringsRoutingTable" where
  "refresh_body M pids perm order t = and_then (refreshLatency M pids perm t) (populateRings M order)"

definition Add :: "('p, 'm) Metrics \<Rightarrow> 'p \<Rightarrow> ('p, 'm) ringsRoutingTable \<Rightarrow> ('p, 'm) ringsRoutingTable" where
  "Add M pid t =
     (if pid \<in> peers t then t
      else (case LatencyProbFn (conf t) pid of
              Inl e \<Rightarrow> t
            | Inr latency \<Rightarrow>
                t\<lparr>metrics := RecordLatency M (metrics t) pid latency,
                  peers := insert pid (peers t)\<rparr>))"

fun Remove_rings :: "'p \<Rightarrow> 'p ring list \<Rightarrow> panic + 'p ring list" where
  "Remove_rings pid [] = Inr []"
| "Remove_rings pid (r # rs) =
     (case ring_Remove pid r of
        Inl e \<Rightarrow> Inl e
      | Inr r' \<Rightarrow> (case Remove_rings pid rs of Inl e \<Rightarrow> Inl e | Inr rs' \<Rightarrow> Inr (r' # rs')))"

definition Remove :: "'p \<Rightarrow> ('p, 'm) ringsRoutingTable \<Rightarrow> panic + ('p, 'm) ringsRoutingTable" where
  "Remove pid t =
     (case Remove_rings pid (rings t) of
        Inl e \<Rightarrow> Inl e
      | Inr rs \<Rightarrow> Inr (t\<lparr>peers := peers t - {pid}, rings := rs\<rparr>))"

text \<open>
  \<open>Recommend\<close>. \<open>make([]int, RingsCount)\<close> panics on a negative length; the quota loop
  \<open>for i := 0; i < count; i++\<close> is given by the iterations left.
\<close>

fun nodesFromRing_loop :: "int \<Rightarrow> nat \<Rightarrow> nat \<Rightarrow> int list \<Rightarrow> panic + int list" where
  "nodesFromRing_loop rc 0 j ns = Inr ns"
| "nodesFromRing_loop rc (Suc n) j ns =
     (if j < length ns then
        nodesFromRing_loop rc n (if rc \<le> int (Suc j) then 0 else Suc j) (ns[j := ns ! j + 1])
      else Inl IndexOutOfRange)"

text \<open>
  \<open>for i, count := range nodesFromRing\<close>: \<open>ring_perm i\<close> is the permutation \<open>rand.Perm\<close>
  returns inside the call on ring \<open>i\<close>.
\<close>

fun rings_loop ::
  "'p ring list \<Rightarrow> 'p set \<Rightarrow> (nat \<Rightarrow> nat list) \<Rightarrow> nat \<Rightarrow> int list \<Rightarrow> 'p list \<Rightarrow> panic + 'p list" where
  "rings_loop rs exclude ring_perm i [] recommended = Inr recommended"
| "rings_loop rs exclude ring_perm i (c # cs) recommended =
     (if i < length rs then
        (case ring_Recommend (ring_perm i) c exclude (rs ! i) of
           Inl e \<Rightarrow> Inl e
         | Inr got \<Rightarrow> rings_loop rs exclude ring_perm (Suc i) cs (recommended @ got))
      else Inl IndexOutOfRange)"

text \<open>
  \<open>sample\<close>: \<open>order\<close> is the list the range over \<open>r.peers\<close> builds, \<open>perm\<close> the
  permutation drawn over it.
\<close>

definition sample :: "'p list \<Rightarrow> nat list \<Rightarrow> int \<Rightarrow> 'p set \<Rightarrow> panic + 'p list" where
  "sample order perm count exclude = pick_loop order exclude (take (nat count) perm) []"

definition Recommend ::
  "(nat \<Rightarrow> nat list) \<Rightarrow> 'p list \<Rightarrow> nat list \<Rightarrow> int \<Rightarrow> 'p list \<Rightarrow> ('p, 'm) ringsRoutingTable
     \<Rightarrow> panic + 'p list" where
  "Recommend ring_perm order perm count excludeList t =
     (if RingsCount (conf t) < 0 then Inl MakeNegativeLen
      else
        (case nodesFromRing_loop (RingsCount (conf t)) (nat count) 0
                (replicate (nat (RingsCount (conf t))) 0) of
           Inl e \<Rightarrow> Inl e
         | Inr nodesFromRing \<Rightarrow>
             (case rings_loop (rings t) (set excludeList) ring_perm 0 nodesFromRing [] of
                Inl e \<Rightarrow> Inl e
              | Inr recommended \<Rightarrow>
                  (if int (length recommended) < count then
                     (case sample order perm (count - int (length recommended))
                             (set excludeList \<union> set recommended) of
                        Inl e \<Rightarrow> Inl e
                      | Inr s \<Rightarrow> Inr (recommended @ s))
                   else Inr recommended))))"

definition Size :: "('p, 'm) ringsRoutingTable \<Rightarrow> int" where
  "Size t = int (card (peers t))"

text \<open>\<open>close\<close> of a channel that is already closed panics.\<close>

definition Shutdown :: "('p, 'm) ringsRoutingTable \<Rightarrow> panic + ('p, 'm) ringsRoutingTable" where
  "Shutdown t =
     (if shutdown t = Closed then Inl CloseOfClosedChannel
      else Inr (t\<lparr>shutdown := Closed\<rparr>))"

section \<open>rings.go: where a call can wait\<close>

text \<open>
  The table embeds a \<open>sync.RWMutex\<close> and owns the channel \<open>shutdown\<close>. A call waits in
  \<open>r.Lock()\<close> while another goroutine holds the mutex for writing or for reading, in
  \<open>r.RLock()\<close> while another holds it for writing or is queued for it, and in a receive
  from \<open>shutdown\<close>, on which nothing is ever sent, until the channel is closed. \<open>close\<close>
  returns at once. \<open>RWMutex\<close> is what the other goroutines have done to the mutex when
  the call arrives.
\<close>

record RWMutex =
  writer :: bool
  readers :: nat
  writer_waiting :: bool

definition Lock_waits :: "RWMutex \<Rightarrow> bool" where
  "Lock_waits mu = (writer mu \<or> 0 < readers mu)"

definition RLock_waits :: "RWMutex \<Rightarrow> bool" where
  "RLock_waits mu = (writer mu \<or> writer_waiting mu)"

definition receive_waits :: "chan \<Rightarrow> bool" where
  "receive_waits ch = (ch = Open)"

definition close_waits :: "chan \<Rightarrow> bool" where
  "close_waits ch = False"

text \<open>
  A call either waits or goes through its body, which is the function of the same name
  above; a deferred unlock gives the mutex back as it was taken.
\<close>

datatype 'a attempt = Waits | Proceeds 'a

text \<open>\<open>Remove\<close> and \<open>populateRings\<close> begin with \<open>r.Lock()\<close>, \<open>Recommend\<close> with \<open>r.RLock()\<close>.\<close>

definition Remove_call ::
  "RWMutex \<Rightarrow> 'p \<Rightarrow> ('p, 'm) ringsRoutingTable \<Rightarrow> (panic + ('p, 'm) ringsRoutingTable) attempt" where
  "Remove_call mu pid t = (if Lock_waits mu then Waits else Proceeds (Remove pid t))"

definition populateRings_call ::
  "RWMutex \<Rightarrow> ('p, 'm) Metrics \<Rightarrow> 'p list \<Rightarrow> ('p, 'm) ringsRoutingTable
     \<Rightarrow> (panic + ('p, 'm) ringsRoutingTable) attempt" where
  "populateRings_call mu M order t =
     (if Lock_waits mu then Waits else Proceeds (populateRings M order t))"

definition Recommend_call ::
  "RWMutex \<Rightarrow> (nat \<Rightarrow> nat list) \<Rightarrow> 'p list \<Rightarrow> nat list \<Rightarrow> int \<Rightarrow> 'p list
     \<Rightarrow> ('p, 'm) ringsRoutingTable \<Rightarrow> (panic + 'p list) attempt" where
  "Recommend_call mu ring_perm order perm count excludeList t =
     (if RLock_waits mu then Waits
      else Proceeds (Recommend ring_perm order perm count excludeList t))"

text \<open>
  \<open>Add\<close> takes the read lock for the membership test, probes with no lock held, and
  takes the write lock to record: \<open>mu\<close> is the mutex at the first point, \<open>mu'\<close> at the
  second.
\<close>

definition Add_call ::
  "RWMutex \<Rightarrow> RWMutex \<Rightarrow> ('p, 'm) Metrics \<Rightarrow> 'p \<Rightarrow> ('p, 'm) ringsRoutingTable
     \<Rightarrow> ('p, 'm) ringsRoutingTable attempt" where
  "Add_call mu mu' M pid t =
     (if RLock_waits mu then Waits
      else if pid \<in> peers t then Proceeds t
      else (case LatencyProbFn (conf t) pid of
              Inl e \<Rightarrow> Proceeds t
            | Inr latency \<Rightarrow> (if Lock_waits mu' then Waits else Proceeds (Add M pid t))))"

text \<open>\<open>Size\<close> and \<open>Shutdown\<close> take no lock; \<open>Shutdown\<close> closes the channel.\<close>

definition Size_call :: "RWMutex \<Rightarrow> ('p, 'm) ringsRoutingTable \<Rightarrow> int attempt" where
  "Size_call mu t = Proceeds (Size t)"

definition Shutdown_call ::
  "RWMutex \<Rightarrow> ('p, 'm) ringsRoutingTable \<Rightarrow> (panic + ('p, 'm) ringsRoutingTable) attempt" where
  "Shutdown_call mu t = (if close_waits (shutdown t) then Waits else Proceeds (Shutdown t))"

section \<open>pair.go: the pairing handshake\<close>

type_synonym byte = "8 word"

definition ack :: byte where
  "ack = 0x06"

definition nak :: byte where
  "nak = 0x15"

text \<open>
  What the client calls and does not own: the host (\<open>NewStream\<close>), the stream's
  connection (\<open>RemotePeer\<close>), the timed read and write of \<open>util\<close>, and the stream store.
  Each is a parameter. A read or write that times out returns an error like any other
  failure. The stream store's package is not among the sources; by its contract in the
  specification (\<open>add(peer, stream, isOutbound) -> bool\<close>, \<open>remove(peer)\<close>) its two
  methods act on the store's own state, of type \<open>'ss\<close>, and \<open>StoreAdd\<close> also returns
  whether it accepted the stream.
\<close>

record ('p, 's, 'ss) net =
  NewStream :: "'p \<Rightarrow> err + 's"
  RemotePeer :: "'s \<Rightarrow> 'p"
  ReadWithTimeout :: "'s \<Rightarrow> nat \<Rightarrow> Duration \<Rightarrow> err + byte list"
  WriteWithTimeout :: "'s \<Rightarrow> byte list \<Rightarrow> Duration \<Rightarrow> err option"
  StoreAdd :: "'ss \<Rightarrow> 'p \<Rightarrow> 's \<Rightarrow> bool \<Rightarrow> bool \<times> 'ss"
  StoreRemove :: "'ss \<Rightarrow> 'p \<Rightarrow> 'ss"

text \<open>
  The client's state, as far as \<open>pair\<close> and \<open>pairHandler\<close> touch it: the routing table,
  the address book of the peer store, the stream store, and three logs of what was done
  to streams, in order: every \<open>stream.Close()\<close>, every \<open>go client.process(stream)\<close> and
  every call of \<open>WriteWithTimeout\<close> with the bytes it was given. The logger's output
  is left out.
\<close>

record ('p, 's, 'ss, 'm) client =
  table :: "('p, 'm) ringsRoutingTable"
  addrs :: "'p \<Rightarrow> string list"
  streamstore :: 'ss
  Timeout :: Duration
  Close_calls :: "'s list"
  process_calls :: "'s list"
  Write_calls :: "('s \<times> byte list) list"

definition Close :: "'s \<Rightarrow> ('p, 's, 'ss, 'm) client \<Rightarrow> ('p, 's, 'ss, 'm) client" where
  "Close stream c = c\<lparr>Close_calls := Close_calls c @ [stream]\<rparr>"

definition go_process :: "'s \<Rightarrow> ('p, 's, 'ss, 'm) client \<Rightarrow> ('p, 's, 'ss, 'm) client" where
  "go_process stream c = c\<lparr>process_calls := process_calls c @ [stream]\<rparr>"

definition ClearAddrs :: "'p \<Rightarrow> ('p, 's, 'ss, 'm) client \<Rightarrow> ('p, 's, 'ss, 'm) client" where
  "ClearAddrs pid c = c\<lparr>addrs := (addrs c)(pid := [])\<rparr>"

text \<open>
  \<open>pair\<close> returns the client afterwards and the pair \<open>(bool, error)\<close>, \<open>None\<close> being
  \<open>nil\<close>. \<open>data[0]\<close> panics on an empty slice. The \<open>&&\<close> is short-circuit: the stream
  store is only asked when the byte is \<open>ack\<close>.
\<close>

definition pair ::
  "('p, 's, 'ss) net \<Rightarrow> 'p \<Rightarrow> ('p, 's, 'ss, 'm) client
     \<Rightarrow> panic + (('p, 's, 'ss, 'm) client \<times> bool \<times> err option)" where
  "pair N pid c =
     (case NewStream N pid of
        Inl e \<Rightarrow>
          (let c1 = ClearAddrs pid c in
           case Remove pid (table c1) of
             Inl p \<Rightarrow> Inl p
           | Inr t' \<Rightarrow> Inr (c1\<lparr>table := t'\<rparr>, False, Some e))
      | Inr stream \<Rightarrow>
          (case ReadWithTimeout N stream 1 (Timeout c) of
             Inl e \<Rightarrow> Inr (Close stream c, False, Some e)
           | Inr data \<Rightarrow>
               (case data of
                  [] \<Rightarrow> Inl IndexOutOfRange
                | d0 # rest \<Rightarrow>
                    (if d0 = ack then
                       (case StoreAdd N (streamstore c) pid stream True of
                          (True, ss) \<Rightarrow> Inr (go_process stream (c\<lparr>streamstore := ss\<rparr>), True, None)
                        | (False, ss) \<Rightarrow> Inr (Close stream (c\<lparr>streamstore := ss\<rparr>), False, None))
                     else Inr (Close stream c, False, None)))))"

text \<open>The closure \<open>reject\<close> of \<open>pairHandler\<close>: a failed write is logged, nothing more.\<close>

definition reject :: "('p, 's, 'ss) net \<Rightarrow> 's \<Rightarrow> ('p, 's, 'ss, 'm) client \<Rightarrow> ('p, 's, 'ss, 'm) client" where
  "reject N stream c =
     (case WriteWithTimeout N stream [nak] (Timeout c) of
        Some e \<Rightarrow> Close stream (c\<lparr>Write_calls := Write_calls c @ [(stream, [nak])]\<rparr>)
      | None \<Rightarrow> Close stream (c\<lparr>Write_calls := Write_calls c @ [(stream, [nak])]\<rparr>))"

definition pairHandler :: "('p, 's, 'ss) net \<Rightarrow> 's \<Rightarrow> ('p, 's, 'ss, 'm) client \<Rightarrow> ('p, 's, 'ss, 'm) client" where
  "pairHandler N stream c =
     (let pid = RemotePeer N stream in
      case StoreAdd N (streamstore c) pid stream False of
        (False, ss) \<Rightarrow> reject N stream (c\<lparr>streamstore := ss\<rparr>)
      | (True, ss) \<Rightarrow>
          (case WriteWithTimeout N stream [ack] (Timeout c) of
             Some e \<Rightarrow>
               c\<lparr>streamstore := StoreRemove N ss pid, Write_calls := Write_calls c @ [(stream, [ack])]\<rparr>
           | None \<Rightarrow>
               go_process stream (c\<lparr>streamstore := ss, Write_calls := Write_calls c @ [(stream, [ack])]\<rparr>)))"

text \<open>How often a stream was closed or handed to the artifact task.\<close>

definition disposals :: "'s \<Rightarrow> ('p, 's, 'ss, 'm) client \<Rightarrow> nat" where
  "disposals stream c = count_list (Close_calls c) stream + count_list (process_calls c) stream"

section \<open>Concrete instances\<close>

text \<open>
  An estimator to run the table on, in the manner of the peer store's: the first sample
  of a peer is its estimate, a later one moves the estimate a tenth of the way; a peer
  with no sample has the estimate zero. Its state is an association list.
\<close>

definition ewma_Metrics :: "('p, ('p \<times> Duration) list) Metrics" where
  "ewma_Metrics =
     \<lparr>RecordLatency = (\<lambda>m p d. case map_of m p of
                                  None \<Rightarrow> AList.update p d m
                                | Some e \<Rightarrow> AList.update p ((9 * e + d) div 10) m),
      LatencyEWMA = (\<lambda>m p. case map_of m p of None \<Rightarrow> 0 | Some e \<Rightarrow> e)\<rparr>"

text \<open>The configuration of scenario A: four rings, base latency 10 ms, growth factor 2.\<close>

definition scenarioA :: "('p \<Rightarrow> err + Duration) \<Rightarrow> 'p RingsConfig" where
  "scenarioA probe =
     \<lparr>RingsCount = 4, BaseLatency = 10 * Millisecond, LatencyGrowthFactor = Finite 2,
      SampleSize = 16, SamplePeriod = 30 * 1000 * Millisecond, LatencyProbFn = probe\<rparr>"

text \<open>A probe: the peers of scenario B, and three more at 10 ms, 25 ms and 0.\<close>

definition probeB :: "string \<Rightarrow> err + Duration" where
  "probeB p = (if p = ''a'' then Inr (5 * Millisecond)
               else if p = ''b'' then Inr (15 * Millisecond)
               else if p = ''c'' then Inr (45 * Millisecond)
               else if p = ''x'' then Inr (10 * Millisecond)
               else if p = ''y'' then Inr (25 * Millisecond)
               else if p = ''z'' then Inr 0
               else Inl ''no route to host'')"

text \<open>On amd64 a conversion out of range gives the least \<open>int64\<close>.\<close>

definition amd64_indefinite :: "float64 \<Rightarrow> Duration" where
  "amd64_indefinite f = - (2 ^ 63)"

definition tableA :: "(string, (string \<times> Duration) list) ringsRoutingTable" where
  "tableA = NewRingsRoutingTable amd64_indefinite (scenarioA probeB) []"

text \<open>A mutex that another goroutine holds for writing.\<close>

definition busy_mutex :: RWMutex where
  "busy_mutex = \<lparr>writer = True, readers = 0, writer_waiting = False\<rparr>"

definition tableB :: "(string, (string \<times> Duration) list) ringsRoutingTable" where
  "tableB = Add ewma_Metrics ''c'' (Add ewma_Metrics ''b'' (Add ewma_Metrics ''a'' tableA))"

text \<open>
  The permutations drawn inside the rings of scenario B once it is populated: rings 0,
  1 and 3 hold one peer, ring 2 none.
\<close>

definition ring_permB :: "nat \<Rightarrow> nat list" where
  "ring_permB i = (if i = 2 then [] else [0])"

text \<open>
  Modelled from the spec: the stream store, whose package is not among the sources. It
  registers a stream for a peer, rejecting a peer that already has one, and \<open>remove\<close>
  deletes the peer's entry.
\<close>

definition list_StoreAdd ::
  "('p \<times> 's \<times> bool) list \<Rightarrow> 'p \<Rightarrow> 's \<Rightarrow> bool \<Rightarrow> bool \<times> ('p \<times> 's \<times> bool) list" where
  "list_StoreAdd ss pid stream outbound =
     (case map_of ss pid of
        Some e \<Rightarrow> (False, ss)
      | None \<Rightarrow> (True, ss @ [(pid, stream, outbound)]))"

definition list_StoreRemove :: "('p \<times> 's \<times> bool) list \<Rightarrow> 'p \<Rightarrow> ('p \<times> 's \<times> bool) list" where
  "list_StoreRemove ss pid = AList.delete pid ss"

text \<open>
  A network over that store: streams are numbers, every inbound stream comes from peer
  \<open>b\<close>, and the outcomes of dialling, reading and writing are given.
\<close>

definition example_net ::
  "(string \<Rightarrow> err + nat) \<Rightarrow> (nat \<Rightarrow> err + byte list) \<Rightarrow> (nat \<Rightarrow> byte list \<Rightarrow> err option)
     \<Rightarrow> (string, nat, (string \<times> nat \<times> bool) list) net" where
  "example_net dial rd wr =
     \<lparr>NewStream = dial,
      RemotePeer = (\<lambda>s. ''b''),
      ReadWithTimeout = (\<lambda>s n d. rd s),
      WriteWithTimeout = (\<lambda>s bs d. wr s bs),
      StoreAdd = list_StoreAdd,
      StoreRemove = list_StoreRemove\<rparr>"

definition example_client ::
  "(string \<times> nat \<times> bool) list
     \<Rightarrow> (string, nat, (string \<times> nat \<times> bool) list, (string \<times> Duration) list) client" where
  "example_client ss =
     \<lparr>table = tableB,
      addrs = (\<lambda>p. [''/ip4/10.0.0.7/tcp/4001'']),
      streamstore = ss,
      Timeout = 10 * 1000 * Millisecond,
      Close_calls = [],
      process_calls = [],
      Write_calls = []\<rparr>"

text \<open>Scenario B after a repopulation pass: \<open>a\<close> in ring 0, \<open>b\<close> in ring 1, \<open>c\<close> in ring 3.\<close>

definition tableB_populated :: "(string, (string \<times> Duration) list) ringsRoutingTable" where
  "tableB_populated = tableB\<lparr>rings := [[''a''], [''b''], [], [''c'']]\<rparr>"

section \<open>Auxiliary facts\<close>

text \<open>The boundaries of scenario A, computed in binary64, and the table they are part of.\<close>

lemma latRanges_loop_scenarioA:
  "latRanges_loop amd64_indefinite (Finite 2) 3 10000000 [0] = [0, 10000000, 20000000, 40000000]"
  by code_simp

lemma tableA_eq:
  "tableA =
     \<lparr>conf = scenarioA probeB, peers = {}, rings = [[], [], [], []],
      latRanges = [0, 10000000, 20000000, 40000000], metrics = [], shutdown = Open\<rparr>"
proof -
  have "nat (RingsCount (scenarioA probeB) - 1) = 3" "BaseLatency (scenarioA probeB) = 10000000"
    "LatencyGrowthFactor (scenarioA probeB) = Finite 2"
    by (simp_all add: scenarioA_def Millisecond_def)
  then show ?thesis
    by (simp add: tableA_def NewRingsRoutingTable_def latRanges_loop_scenarioA)
      (simp add: scenarioA_def numeral_eq_Suc)
qed

text \<open>
  Where binary64 shows: with factor 1.13 the third boundary is one nanosecond short of
  the exact product, and a boundary that \<open>int64\<close> cannot hold is the platform's value.
\<close>

lemma latRanges_loop_rounds:
  "latRanges_loop amd64_indefinite (Finite (113 / 100)) 3 1000000 [0]
     = [0, 1000000, 1130000, 1276899]"
  by code_simp

lemma latRanges_loop_out_of_range:
  "latRanges_loop amd64_indefinite (Finite 2) 3 (2 ^ 61) [0] = [0, 2 ^ 61, 2 ^ 62, - (2 ^ 63)]"
  by code_simp

lemmas scenario_defs =
  tableA_eq tableB_def scenarioA_def probeB_def ewma_Metrics_def Millisecond_def
  Add_def numeral_eq_Suc

lemma populateRings_tableB:
  "populateRings ewma_Metrics [''a'', ''b'', ''c''] tableB = Inr tableB_populated"
  by (simp add: populateRings_def tableB_populated_def scenario_defs ring_Add_def)

subsection \<open>\<open>ring.Remove\<close> on a ring that holds the peer at most once\<close>

lemma ring_Remove_loop_skip:
  assumes "\<forall>j. i \<le> j \<and> j < k \<longrightarrow> arr ! j \<noteq> pid" and "i \<le> k" and "k \<le> n"
  shows "ring_Remove_loop pid i n arr l = ring_Remove_loop pid k n arr l"
  using assms
proof (induction "k - i" arbitrary: i)
  case 0
  then show ?case by simp
next
  case (Suc d)
  then have "i < k" "i < n" "arr ! i \<noteq> pid" by auto
  moreover have "ring_Remove_loop pid (Suc i) n arr l = ring_Remove_loop pid k n arr l"
    using Suc by (intro Suc.hyps(1)) auto
  ultimately show ?case
    by (subst ring_Remove_loop.simps) simp
qed

lemma ring_Remove_loop_absent:
  assumes "\<forall>j. i \<le> j \<and> j < n \<longrightarrow> arr ! j \<noteq> pid"
  shows "ring_Remove_loop pid i n arr l = Inr (take l arr)"
proof (cases "i \<le> n")
  case True
  then have "ring_Remove_loop pid i n arr l = ring_Remove_loop pid n n arr l"
    using assms by (intro ring_Remove_loop_skip) auto
  then show ?thesis by (simp add: ring_Remove_loop.simps)
next
  case False
  then show ?thesis by (simp add: ring_Remove_loop.simps)
qed

lemma ring_Remove_absent: "pid \<notin> set r \<Longrightarrow> ring_Remove pid r = Inr r"
  unfolding ring_Remove_def
  by (subst ring_Remove_loop_absent) (auto simp: in_set_conv_nth)

text \<open>
  One occurrence: the loop walks up to it, shifts the tail down, and then reads the
  shifted cells and the stale last cell, none of which is the peer.
\<close>

lemma ring_Remove_once:
  assumes "pid \<notin> set xs" and "pid \<notin> set ys"
  shows "ring_Remove pid (xs @ pid # ys) = Inr (xs @ ys)"
proof -
  let ?r = "xs @ pid # ys"
  let ?n = "length ?r"
  let ?k = "length xs"
  let ?arr = "xs @ ys @ [last (pid # ys)]"
  have skip: "ring_Remove_loop pid 0 ?n ?r ?n = ring_Remove_loop pid ?k ?n ?r ?n"
    using assms(1) by (intro ring_Remove_loop_skip) (auto simp: nth_append in_set_conv_nth)
  have sh: "shift_down ?k ?n ?r = ?arr"
    by (cases ys rule: rev_cases) (simp_all add: shift_down_def)
  have step: "ring_Remove_loop pid ?k ?n ?r ?n
                = ring_Remove_loop pid (Suc ?k) ?n (shift_down ?k ?n ?r) (?n - 1)"
    by (subst ring_Remove_loop.simps) simp
  have rest: "ring_Remove_loop pid (Suc ?k) ?n ?arr (?n - 1) = Inr (take (?n - 1) ?arr)"
  proof (rule ring_Remove_loop_absent, intro allI impI)
    fix j assume j: "Suc ?k \<le> j \<and> j < ?n"
    then have ne: "ys \<noteq> []" by auto
    then have arr: "?arr = xs @ ys @ [last ys]" by simp
    have ge: "\<not> j < ?k" using j by simp
    show "?arr ! j \<noteq> pid"
    proof (cases "j - ?k < length ys")
      case True
      then have "?arr ! j = ys ! (j - ?k)"
        unfolding arr using ge by (simp add: nth_append)
      moreover have "ys ! (j - ?k) \<in> set ys" using True by simp
      ultimately show ?thesis using assms(2) by metis
    next
      case False
      then have "j - ?k = length ys" using j by auto
      then have "?arr ! j = last ys"
        unfolding arr using ge by (simp add: nth_append)
      then show ?thesis using assms(2) ne last_in_set by metis
    qed
  qed
  have "ring_Remove pid ?r = ring_Remove_loop pid 0 ?n ?r ?n"
    by (simp add: ring_Remove_def)
  also have "\<dots> = ring_Remove_loop pid ?k ?n ?r ?n"
    by (rule skip)
  also have "\<dots> = ring_Remove_loop pid (Suc ?k) ?n (shift_down ?k ?n ?r) (?n - 1)"
    by (rule step)
  also have "\<dots> = ring_Remove_loop pid (Suc ?k) ?n ?arr (?n - 1)"
    by (simp only: sh)
  also have "\<dots> = Inr (take (?n - 1) ?arr)"
    by (rule rest)
  also have "\<dots> = Inr (xs @ ys)"
    by simp
  finally show ?thesis .
qed

lemma ring_Remove_distinct:
  assumes "distinct r"
  shows "ring_Remove pid r = Inr (removeAll pid r)"
proof (cases "pid \<in> set r")
  case False
  then show ?thesis by (simp add: ring_Remove_absent)
next
  case True
  then obtain xs ys where r: "r = xs @ pid # ys" by (auto simp: in_set_conv_decomp)
  with assms have "pid \<notin> set xs" "pid \<notin> set ys" by auto
  then show ?thesis unfolding r by (simp add: ring_Remove_once)
qed

subsection \<open>Which ring \<open>populateRings\<close> picks\<close>

text \<open>
  The inner loop finds the topmost boundary strictly below the latency: ring \<open>i\<close> gets
  the latencies in \<open>(latRanges[i], latRanges[i+1]]\<close> when the boundaries increase, and a
  latency that is above no boundary gets no ring.
\<close>

lemma find_ring_Some:
  assumes "find_ring latency lr n = Some i"
  shows "i < n \<and> lr ! i < latency \<and> (\<forall>j. i < j \<and> j < n \<longrightarrow> latency \<le> lr ! j)"
  using assms
proof (induction n)
  case 0
  then show ?case by simp
next
  case (Suc n)
  show ?case
  proof (cases "lr ! n < latency")
    case True
    with Suc.prems have "i = n" by simp
    with True show ?thesis by auto
  next
    case False
    with Suc.prems have "find_ring latency lr n = Some i" by simp
    then have "i < n \<and> lr ! i < latency \<and> (\<forall>j. i < j \<and> j < n \<longrightarrow> latency \<le> lr ! j)"
      by (rule Suc.IH)
    with False show ?thesis by (auto simp: less_Suc_eq)
  qed
qed

lemma find_ring_None: "find_ring latency lr n = None \<longleftrightarrow> (\<forall>j<n. latency \<le> lr ! j)"
  by (induction n) (auto simp: less_Suc_eq)

text \<open>After the outer loop, ring \<open>i\<close> has gained the peers whose ring is \<open>i\<close>, in order.\<close>

lemma populate_loop_rings:
  assumes "populate_loop estimate lr pids rs = Inr rs'"
  shows "length rs' = length rs \<and>
         (\<forall>i<length rs. rs' ! i =
            rs ! i @ filter (\<lambda>p. find_ring (estimate p) lr (length lr) = Some i) pids)"
  using assms
proof (induction pids arbitrary: rs)
  case Nil
  then show ?case by simp
next
  case (Cons pid pids)
  show ?case
  proof (cases "find_ring (estimate pid) lr (length lr)")
    case None
    with Cons.prems have "populate_loop estimate lr pids rs = Inr rs'" by simp
    from Cons.IH [OF this] None show ?thesis by simp
  next
    case (Some k)
    with Cons.prems have k: "k < length rs"
      and run: "populate_loop estimate lr pids (rs[k := ring_Add pid (rs ! k)]) = Inr rs'"
      by (simp_all split: if_splits)
    from Cons.IH [OF run] Some k show ?thesis
      by (auto simp: nth_list_update ring_Add_def)
  qed
qed

lemma populate_loop_returns:
  assumes "length lr \<le> length rs"
  shows "\<exists>rs'. populate_loop estimate lr pids rs = Inr rs'"
  using assms
proof (induction pids arbitrary: rs)
  case Nil
  then show ?case by simp
next
  case (Cons pid pids)
  show ?case
  proof (cases "find_ring (estimate pid) lr (length lr)")
    case None
    with Cons show ?thesis by simp
  next
    case (Some k)
    then have "k < length lr" using find_ring_Some by blast
    with Cons.prems have "k < length rs" by simp
    moreover have "\<exists>rs'. populate_loop estimate lr pids (rs[k := ring_Add pid (rs ! k)]) = Inr rs'"
      using Cons.prems by (intro Cons.IH) simp
    ultimately show ?thesis using Some by simp
  qed
qed

lemma length_latRanges_loop: "length (latRanges_loop indefinite g n k lr) = length lr + n"
  by (induction n arbitrary: k lr) simp_all

lemma populateRings_rings:
  assumes "populateRings M order t = Inr t'" and "i < nat (RingsCount (conf t))"
  shows "rings t' ! i =
           filter (\<lambda>p. find_ring (LatencyEWMA M (metrics t) p) (latRanges t)
                         (length (latRanges t)) = Some i) order"
proof -
  from assms(1) obtain rs where
    run: "populate_loop (LatencyEWMA M (metrics t)) (latRanges t) order
            (replicate (nat (RingsCount (conf t))) []) = Inr rs"
    and t': "t' = t\<lparr>rings := rs\<rparr>"
    by (auto simp: populateRings_def split: sum.splits)
  from populate_loop_rings [OF run] assms(2) show ?thesis
    by (simp add: t')
qed

lemma populateRings_length:
  assumes "populateRings M order t = Inr t'"
  shows "length (rings t') = nat (RingsCount (conf t))"
proof -
  from assms obtain rs where
    run: "populate_loop (LatencyEWMA M (metrics t)) (latRanges t) order
            (replicate (nat (RingsCount (conf t))) []) = Inr rs"
    and t': "t' = t\<lparr>rings := rs\<rparr>"
    by (auto simp: populateRings_def split: sum.splits)
  from populate_loop_rings [OF run] show ?thesis
    by (simp add: t')
qed

text \<open>
  A peer whose estimate is above the lowest boundary is in one ring and no other; the
  peers left out are those at or below it.
\<close>

lemma populateRings_one_ring:
  assumes run: "populateRings M order t = Inr t'"
    and p: "p \<in> set order"
    and ne: "latRanges t \<noteq> []"
    and pos: "latRanges t ! 0 < LatencyEWMA M (metrics t) p"
    and len: "length (latRanges t) \<le> nat (RingsCount (conf t))"
  shows "\<exists>k<length (rings t'). \<forall>i<length (rings t'). (p \<in> set (rings t' ! i)) = (i = k)"
proof -
  let ?f = "\<lambda>q. find_ring (LatencyEWMA M (metrics t) q) (latRanges t) (length (latRanges t))"
  have "?f p \<noteq> None"
    using ne pos by (auto simp: find_ring_None)
  then obtain k where k: "?f p = Some k" by auto
  then have "k < length (latRanges t)" using find_ring_Some by blast
  with len have kn: "k < nat (RingsCount (conf t))" by simp
  have "\<forall>i<length (rings t'). (p \<in> set (rings t' ! i)) = (i = k)"
  proof (intro allI impI)
    fix i assume "i < length (rings t')"
    then have "i < nat (RingsCount (conf t))"
      by (simp add: populateRings_length [OF run])
    from populateRings_rings [OF run this] p k
    show "(p \<in> set (rings t' ! i)) = (i = k)" by auto
  qed
  with kn show ?thesis
    by (auto simp: populateRings_length [OF run])
qed

text \<open>A table with at least one ring, as built by the constructor, is repopulated without a panic.\<close>

lemma populateRings_returns:
  assumes "length (latRanges t) \<le> nat (RingsCount (conf t))"
  shows "\<exists>t'. populateRings M order t = Inr t'"
proof -
  have "\<exists>rs. populate_loop (LatencyEWMA M (metrics t)) (latRanges t) order
            (replicate (nat (RingsCount (conf t))) []) = Inr rs"
    using assms by (intro populate_loop_returns) simp
  then show ?thesis by (auto simp: populateRings_def)
qed

lemma populateRings_New_returns:
  assumes "1 \<le> RingsCount c"
  shows "\<exists>t'. populateRings M order (NewRingsRoutingTable indefinite c m) = Inr t'"
  using assms
  by (intro populateRings_returns) (simp add: NewRingsRoutingTable_def length_latRanges_loop)

subsection \<open>\<open>Remove\<close> on rings that hold no peer twice\<close>

lemma Remove_rings_distinct:
  assumes "\<forall>r\<in>set rs. distinct r"
  shows "Remove_rings pid rs = Inr (map (removeAll pid) rs)"
  using assms by (induction rs) (simp_all add: ring_Remove_distinct)

lemma Remove_distinct:
  assumes "\<forall>r\<in>set (rings t). distinct r"
  shows "Remove pid t =
           Inr (t\<lparr>peers := peers t - {pid}, rings := map (removeAll pid) (rings t)\<rparr>)"
  using assms by (simp add: Remove_def Remove_rings_distinct)


subsection \<open>No ring ever holds a peer twice\<close>

text \<open>
  \<open>ring.Add\<close> is called from \<open>populateRings\<close> only, once for each key of the peer map.
  The rings start empty, \<open>populateRings\<close> builds rings without duplicates, \<open>Remove\<close>
  keeps them so, and no other operation touches them.
\<close>

lemma rings_New: "r \<in> set (rings (NewRingsRoutingTable indefinite c m)) \<Longrightarrow> r = []"
  by (simp add: NewRingsRoutingTable_def)

lemma rings_Add: "rings (Add M pid t) = rings t"
  by (simp add: Add_def split: sum.splits)

lemma rings_probe_all: "rings (probe_all M pids t) = rings t"
  by (induction pids arbitrary: t) (simp_all split: sum.splits)

lemma rings_refreshLatency: "refreshLatency M pids perm t = Inr t' \<Longrightarrow> rings t' = rings t"
  by (auto simp: refreshLatency_def rings_probe_all split: sum.splits)

lemma rings_Shutdown: "Shutdown t = Inr t' \<Longrightarrow> rings t' = rings t"
  by (auto simp: Shutdown_def split: if_splits)

lemma rings_distinct_populateRings:
  assumes "populateRings M order t = Inr t'" and "distinct order"
  shows "\<forall>r\<in>set (rings t'). distinct r"
proof
  fix r assume "r \<in> set (rings t')"
  then obtain i where i: "i < length (rings t')" and r: "r = rings t' ! i"
    by (auto simp: in_set_conv_nth)
  from i have "i < nat (RingsCount (conf t))"
    by (simp add: populateRings_length [OF assms(1)])
  from populateRings_rings [OF assms(1) this] assms(2) show "distinct r"
    by (simp add: r)
qed

lemma rings_distinct_Remove:
  assumes "\<forall>r\<in>set (rings t). distinct r" and "Remove pid t = Inr t'"
  shows "\<forall>r\<in>set (rings t'). distinct r"
  using assms by (auto simp: Remove_distinct distinct_removeAll)

subsection \<open>The handshake, path by path\<close>

lemma nak_not_ack: "nak \<noteq> ack"
  by (simp add: nak_def ack_def)

lemma pairHandler_rejected:
  assumes "StoreAdd N (streamstore c) (RemotePeer N s) s False = (False, ss)"
  shows "pairHandler N s c =
           c\<lparr>streamstore := ss, Write_calls := Write_calls c @ [(s, [nak])],
             Close_calls := Close_calls c @ [s]\<rparr>"
  using assms by (simp add: pairHandler_def reject_def Close_def split: option.splits)

lemma pairHandler_ack_failed:
  assumes "StoreAdd N (streamstore c) (RemotePeer N s) s False = (True, ss)"
    and "WriteWithTimeout N s [ack] (Timeout c) = Some e"
  shows "pairHandler N s c =
           c\<lparr>streamstore := StoreRemove N ss (RemotePeer N s),
             Write_calls := Write_calls c @ [(s, [ack])]\<rparr>"
  using assms by (simp add: pairHandler_def)

lemma pairHandler_paired:
  assumes "StoreAdd N (streamstore c) (RemotePeer N s) s False = (True, ss)"
    and "WriteWithTimeout N s [ack] (Timeout c) = None"
  shows "pairHandler N s c =
           c\<lparr>streamstore := ss, Write_calls := Write_calls c @ [(s, [ack])],
             process_calls := process_calls c @ [s]\<rparr>"
  using assms by (simp add: pairHandler_def go_process_def)

lemma pair_nak:
  assumes "NewStream N pid = Inr stream"
    and "ReadWithTimeout N stream 1 (Timeout c) = Inr (d0 # rest)"
    and "d0 \<noteq> ack"
  shows "pair N pid c = Inr (c\<lparr>Close_calls := Close_calls c @ [stream]\<rparr>, False, None)"
  using assms by (simp add: pair_def Close_def)

lemma pair_store_rejects:
  assumes "NewStream N pid = Inr stream"
    and "ReadWithTimeout N stream 1 (Timeout c) = Inr (ack # rest)"
    and "StoreAdd N (streamstore c) pid stream True = (False, ss)"
  shows "pair N pid c =
           Inr (c\<lparr>streamstore := ss, Close_calls := Close_calls c @ [stream]\<rparr>, False, None)"
  using assms by (simp add: pair_def Close_def)

lemma pair_paired:
  assumes "NewStream N pid = Inr stream"
    and "ReadWithTimeout N stream 1 (Timeout c) = Inr (ack # rest)"
    and "StoreAdd N (streamstore c) pid stream True = (True, ss)"
  shows "pair N pid c =
           Inr (c\<lparr>streamstore := ss, process_calls := process_calls c @ [stream]\<rparr>, True, None)"
  using assms by (simp add: pair_def go_process_def)

text \<open>
  How often each side closes or hands off its stream. The responder does so once on
  every path but one; the initiator, once it has a stream, on every path.
\<close>

lemma pairHandler_disposals:
  "disposals s (pairHandler N s c) =
     disposals s c +
       (if fst (StoreAdd N (streamstore c) (RemotePeer N s) s False)
           \<and> WriteWithTimeout N s [ack] (Timeout c) \<noteq> None
        then 0 else 1)"
proof (cases "StoreAdd N (streamstore c) (RemotePeer N s) s False")
  case (Pair ok ss)
  show ?thesis
  proof (cases ok)
    case False
    with Pair show ?thesis
      by (simp add: pairHandler_rejected disposals_def)
  next
    case True
    with Pair show ?thesis
      by (cases "WriteWithTimeout N s [ack] (Timeout c)")
        (simp_all add: pairHandler_paired pairHandler_ack_failed disposals_def)
  qed
qed

lemma pair_disposals:
  assumes "NewStream N pid = Inr stream" and "pair N pid c = Inr (c', r)"
  shows "disposals stream c' = disposals stream c + 1"
  using assms
  by (auto simp: pair_def disposals_def Close_def go_process_def
      split: sum.splits list.splits if_splits prod.splits bool.splits)

section \<open>The claims\<close>

subsection \<open>C1: how many peers \<open>Recommend\<close> returns\<close>

text \<open>
  C1 says that \<open>Recommend(count, exclude)\<close> returns exactly \<open>count\<close> peers whenever the
  table holds at least \<open>count\<close> peers outside \<open>exclude\<close>, whatever the permutations drawn.
  The code does not: in \<open>ring.Recommend\<close> and in \<open>sample\<close> an excluded peer uses up one
  of the \<open>count\<close> slots of the walk. On scenario B (peers \<open>a\<close>, \<open>b\<close>, \<open>c\<close> at 5, 15 and
  45 ms, populated), \<open>Recommend(3, {})\<close> takes \<open>a\<close> and \<open>b\<close> from rings 0 and 1, finds
  ring 2 empty, and the fallback \<open>sample(1, {a, b})\<close> looks at one peer only; when that
  peer is \<open>a\<close>, nothing is added, and two peers are returned although three are eligible.
\<close>

theorem Recommend_leaves_eligible_peer_out:
  "enumerates [''a'', ''b'', ''c''] (peers tableB) \<and>
   card (peers tableB - set []) = 3 \<and>
   is_Perm [0, 1, 2] 3 \<and>
   is_Perm (ring_permB 0) 1 \<and> is_Perm (ring_permB 1) 1 \<and>
   is_Perm (ring_permB 2) 0 \<and> is_Perm (ring_permB 3) 1 \<and>
   map_sum id rings (populateRings ewma_Metrics [''a'', ''b'', ''c''] tableB)
     = Inr [[''a''], [''b''], [], [''c'']] \<and>
   and_then (populateRings ewma_Metrics [''a'', ''b'', ''c''] tableB)
     (Recommend ring_permB [''a'', ''b'', ''c''] [0, 1, 2] 3 []) = Inr [''a'', ''b'']"
proof -
  have "enumerates [''a'', ''b'', ''c''] (peers tableB)"
    by (auto simp: enumerates_def scenario_defs)
  moreover have "card (peers tableB - set []) = 3"
    by (simp add: scenario_defs)
  moreover have "is_Perm [0, 1, 2] 3"
    by (simp add: is_Perm_def upt_rec)
  moreover have "is_Perm (ring_permB 0) 1" "is_Perm (ring_permB 1) 1"
    "is_Perm (ring_permB 2) 0" "is_Perm (ring_permB 3) 1"
    by (simp_all add: is_Perm_def ring_permB_def)
  moreover have "map_sum id rings (populateRings ewma_Metrics [''a'', ''b'', ''c''] tableB)
     = Inr [[''a''], [''b''], [], [''c'']]"
    by (simp add: populateRings_tableB tableB_populated_def)
  moreover have "and_then (populateRings ewma_Metrics [''a'', ''b'', ''c''] tableB)
     (Recommend ring_permB [''a'', ''b'', ''c''] [0, 1, 2] 3 []) = Inr [''a'', ''b'']"
    by code_simp
  ultimately show ?thesis by blast
qed

subsection \<open>C2: every peer in one ring after a repopulation pass\<close>

text \<open>
  C2 says that after \<open>populateRings\<close> every peer of the peer set is in exactly one ring,
  whatever the estimator returns for it, the zero estimate included. The struct's own
  comment gives ring \<open>n\<close> the range \<open>[latRanges[n], latRanges[n+1])\<close>, and \<open>latRanges[0]\<close>
  is 0; but the loop tests \<open>latency > r.latRanges[i]\<close>, so a peer whose estimate is 0
  passes no test and is put in no ring. Here peer \<open>z\<close> is added with a probe of 0.
\<close>

theorem populateRings_leaves_zero_latency_peer_out:
  "''z'' \<in> peers (Add ewma_Metrics ''z'' tableA) \<and>
   LatencyEWMA ewma_Metrics (metrics (Add ewma_Metrics ''z'' tableA)) ''z'' = 0 \<and>
   map_sum id rings (populateRings ewma_Metrics [''z''] (Add ewma_Metrics ''z'' tableA))
     = Inr [[], [], [], []]"
proof -
  have "''z'' \<in> peers (Add ewma_Metrics ''z'' tableA)"
    by (simp add: scenario_defs)
  moreover have "LatencyEWMA ewma_Metrics (metrics (Add ewma_Metrics ''z'' tableA)) ''z'' = 0"
    by (simp add: scenario_defs)
  moreover have "map_sum id rings (populateRings ewma_Metrics [''z''] (Add ewma_Metrics ''z'' tableA))
     = Inr [[], [], [], []]"
    by code_simp
  ultimately show ?thesis by blast
qed

subsection \<open>C3: the background refresh task\<close>

text \<open>
  C3 says that the background task runs its body once per sample period, again and
  again, until shutdown: \<open>n\<close> periods without a shutdown give at least \<open>n\<close> runs. The
  comment above the goroutine says the same (periodically, until explicitly shut down),
  but the goroutine is a single \<open>select\<close>: whatever the events, the body runs at most
  once, and three elapsed periods give one run.
\<close>

theorem refresh_task_body_runs_at_most_once:
  "snd (refresh_task body evs t) \<le> 1 \<and>
   snd (refresh_task body [TimerFired, TimerFired, TimerFired] t) = 1"
  by (cases "(body, evs, t)" rule: refresh_task.cases) auto

subsection \<open>C4: the responder closes or hands off the stream exactly once\<close>

text \<open>
  C4 says that every path of \<open>pairHandler\<close> closes the stream or hands it off exactly
  once, and that when the ACK write fails after a successful registration the entry is
  removed and the stream closed. On that path the handler calls
  \<open>client.streamstore.Remove(pid)\<close> and returns: it calls neither \<open>stream.Close()\<close>, as
  \<open>reject\<close> and \<open>pair\<close> do on their failure paths, nor \<open>client.process\<close>. Here stream 9
  from peer \<open>b\<close> is accepted by an empty store and the write of the ACK times out.
\<close>

theorem pairHandler_ack_failure_never_closes:
  "streamstore (pairHandler (example_net (\<lambda>p. Inl ''unused'') (\<lambda>s. Inl ''unused'')
                   (\<lambda>s bs. Some ''i/o timeout'')) 9 (example_client [])) = [] \<and>
   Write_calls (pairHandler (example_net (\<lambda>p. Inl ''unused'') (\<lambda>s. Inl ''unused'')
                   (\<lambda>s bs. Some ''i/o timeout'')) 9 (example_client [])) = [(9, [0x06])] \<and>
   Close_calls (pairHandler (example_net (\<lambda>p. Inl ''unused'') (\<lambda>s. Inl ''unused'')
                   (\<lambda>s bs. Some ''i/o timeout'')) 9 (example_client [])) = [] \<and>
   process_calls (pairHandler (example_net (\<lambda>p. Inl ''unused'') (\<lambda>s. Inl ''unused'')
                   (\<lambda>s bs. Some ''i/o timeout'')) 9 (example_client [])) = [] \<and>
   disposals 9 (pairHandler (example_net (\<lambda>p. Inl ''unused'') (\<lambda>s. Inl ''unused'')
                   (\<lambda>s bs. Some ''i/o timeout'')) 9 (example_client [])) = 0"
proof -
  let ?N = "example_net (\<lambda>p. Inl ''unused'') (\<lambda>s. Inl ''unused'') (\<lambda>s bs. Some ''i/o timeout'')"
  let ?c = "example_client []"
  have a: "StoreAdd ?N (streamstore ?c) (RemotePeer ?N 9) 9 False = (True, [(''b'', 9, False)])"
    by (simp add: example_net_def example_client_def list_StoreAdd_def)
  have w: "WriteWithTimeout ?N 9 [ack] (Timeout ?c) = Some ''i/o timeout''"
    by (simp add: example_net_def)
  have r: "StoreRemove ?N [(''b'', 9, False)] (RemotePeer ?N 9) = []"
    by (simp add: example_net_def list_StoreRemove_def)
  show ?thesis
    unfolding pairHandler_ack_failed [OF a w] r
    by (simp add: disposals_def example_client_def ack_def)
qed

subsection \<open>C5: the boundaries of scenario A and the ring of a peer\<close>

text \<open>
  C5 says that four rings, base latency 10 ms and growth factor 2 give the boundaries
  0, 10, 20 and 40 ms, that a peer goes to the ring \<open>i\<close> whose band
  \<open>[boundary[i], boundary[i+1])\<close> holds its latency, that 25 ms is ring 2, and that a
  latency equal to a boundary belongs to the ring that boundary opens. The boundaries
  and the 25 ms peer are as claimed. A peer at exactly 10 ms (peer \<open>x\<close>) is put in ring
  0, not ring 1: the loop tests \<open>latency > r.latRanges[i]\<close> where the struct's comment
  promises a band closed below.
\<close>

theorem boundary_latency_lands_in_lower_ring:
  "latRanges tableA = [0, 10 * Millisecond, 20 * Millisecond, 40 * Millisecond] \<and>
   find_ring (25 * Millisecond) (latRanges tableA) 4 = Some 2 \<and>
   find_ring (10 * Millisecond) (latRanges tableA) 4 = Some 0 \<and>
   map_sum id rings
     (populateRings ewma_Metrics [''x'', ''y'']
        (Add ewma_Metrics ''y'' (Add ewma_Metrics ''x'' tableA)))
     = Inr [[''x''], [], [''y''], []]"
proof -
  have lr: "latRanges tableA = [0, 10 * Millisecond, 20 * Millisecond, 40 * Millisecond]"
    by (simp add: scenario_defs)
  moreover have "find_ring (25 * Millisecond) (latRanges tableA) 4 = Some 2"
    unfolding lr by (simp add: Millisecond_def numeral_eq_Suc)
  moreover have "find_ring (10 * Millisecond) (latRanges tableA) 4 = Some 0"
    unfolding lr by (simp add: Millisecond_def numeral_eq_Suc)
  moreover have "map_sum id rings
     (populateRings ewma_Metrics [''x'', ''y'']
        (Add ewma_Metrics ''y'' (Add ewma_Metrics ''x'' tableA)))
     = Inr [[''x''], [], [''y''], []]"
    by code_simp
  ultimately show ?thesis by blast
qed

subsection \<open>C6: calling \<open>Shutdown\<close> twice\<close>

text \<open>
  C6 says that a second \<open>Shutdown()\<close> on the same table does not panic and that
  \<open>Shutdown\<close> never blocks. \<open>Shutdown\<close> is \<open>close(r.shutdown)\<close> and nothing else: it takes
  no lock and has no latch. On a fresh table the first call closes the channel and the
  second panics.
\<close>

theorem Shutdown_second_call_panics:
  "map_sum id shutdown (Shutdown tableA) = Inr Closed \<and>
   and_then (Shutdown tableA) Shutdown = Inl CloseOfClosedChannel"
  by (simp add: Shutdown_def and_then_def tableA_eq)

text \<open>
  C6 as amended: \<open>Shutdown\<close> never waits, whatever other goroutines hold of the table's
  mutex and whether the channel is open or closed; on a table whose shutdown channel is
  still open, as it is from construction until the first call, it returns with the
  channel closed and without a panic; any call after that panics.
\<close>

theorem Shutdown_first_call:
  "Shutdown_call mu t \<noteq> Waits \<and>
   (shutdown t = Open \<longrightarrow>
      Shutdown_call mu t = Proceeds (Inr (t\<lparr>shutdown := Closed\<rparr>)) \<and>
      Shutdown t = Inr (t\<lparr>shutdown := Closed\<rparr>) \<and>
      Shutdown_call mu (t\<lparr>shutdown := Closed\<rparr>) = Proceeds (Inl CloseOfClosedChannel) \<and>
      Shutdown (t\<lparr>shutdown := Closed\<rparr>) = Inl CloseOfClosedChannel)"
  by (simp add: Shutdown_call_def close_waits_def Shutdown_def)

text \<open>
  On a fresh table whose mutex another goroutine holds for writing, a \<open>Remove\<close> waits
  and \<open>Shutdown\<close> goes through.
\<close>

theorem Shutdown_first_call_witness:
  "Lock_waits busy_mutex \<and> RLock_waits busy_mutex \<and>
   Remove_call busy_mutex ''a'' tableA = Waits \<and>
   shutdown tableA = Open \<and>
   Shutdown_call busy_mutex tableA \<noteq> Waits \<and>
   Shutdown_call busy_mutex tableA = Proceeds (Inr (tableA\<lparr>shutdown := Closed\<rparr>)) \<and>
   Shutdown tableA = Inr (tableA\<lparr>shutdown := Closed\<rparr>) \<and>
   Shutdown_call busy_mutex (tableA\<lparr>shutdown := Closed\<rparr>) = Proceeds (Inl CloseOfClosedChannel) \<and>
   Shutdown (tableA\<lparr>shutdown := Closed\<rparr>) = Inl CloseOfClosedChannel"
proof -
  have h: "shutdown tableA = Open"
    by (simp add: tableA_eq)
  have w: "Lock_waits busy_mutex" "RLock_waits busy_mutex"
    "Remove_call busy_mutex ''a'' tableA = Waits"
    by (simp_all add: Lock_waits_def RLock_waits_def Remove_call_def busy_mutex_def)
  show ?thesis
    using h w Shutdown_first_call [of busy_mutex tableA] by simp
qed

subsection \<open>C7: the read of the control byte fails\<close>

text \<open>
  C7: when \<open>pair(p)\<close> has opened the stream and the read of the control byte times out
  or fails, \<open>pair\<close> returns \<open>false\<close> and the read error, the stream is closed, and
  neither the routing table nor the cached addresses of \<open>p\<close> change: the one effect on
  the client is the call of \<open>stream.Close()\<close>.
\<close>

theorem pair_read_failure:
  assumes "NewStream N pid = Inr stream"
    and "ReadWithTimeout N stream 1 (Timeout c) = Inl e"
  shows "pair N pid c = Inr (Close stream c, False, Some e) \<and>
         Close_calls (Close stream c) = Close_calls c @ [stream] \<and>
         process_calls (Close stream c) = process_calls c \<and>
         table (Close stream c) = table c \<and>
         addrs (Close stream c) = addrs c \<and>
         streamstore (Close stream c) = streamstore c"
  using assms by (simp add: pair_def Close_def)

theorem pair_read_failure_witness:
  "NewStream (example_net (\<lambda>p. Inr 7) (\<lambda>s. Inl ''i/o timeout'') (\<lambda>s bs. None)) ''b'' = Inr 7 \<and>
   ReadWithTimeout (example_net (\<lambda>p. Inr 7) (\<lambda>s. Inl ''i/o timeout'') (\<lambda>s bs. None)) 7 1
       (Timeout (example_client [])) = Inl ''i/o timeout'' \<and>
   pair (example_net (\<lambda>p. Inr 7) (\<lambda>s. Inl ''i/o timeout'') (\<lambda>s bs. None)) ''b'' (example_client [])
     = Inr (Close 7 (example_client []), False, Some ''i/o timeout'') \<and>
   Close_calls (Close 7 (example_client [])) = [7] \<and>
   ''b'' \<in> peers (table (Close 7 (example_client []))) \<and>
   addrs (Close 7 (example_client [])) ''b'' = [''/ip4/10.0.0.7/tcp/4001'']"
proof -
  let ?N = "example_net (\<lambda>p. Inr 7) (\<lambda>s. Inl ''i/o timeout'') (\<lambda>s bs. None)"
  let ?c = "example_client []"
  have h1: "NewStream ?N ''b'' = Inr 7"
    by (simp add: example_net_def)
  have h2: "ReadWithTimeout ?N 7 1 (Timeout ?c) = Inl ''i/o timeout''"
    by (simp add: example_net_def)
  have t: "''b'' \<in> peers (table ?c)"
    by (simp add: example_client_def scenario_defs)
  have a: "addrs ?c ''b'' = [''/ip4/10.0.0.7/tcp/4001'']" and c: "Close_calls ?c = []"
    by (simp_all add: example_client_def)
  show ?thesis
    using pair_read_failure [OF h1 h2] h1 h2 t a c by simp
qed

subsection \<open>C8: a negotiated rejection\<close>

text \<open>
  C8: when the control byte read by \<open>pair(p)\<close> is NAK, or is ACK and the stream store
  rejects the outbound registration, \<open>pair\<close> closes the stream, returns \<open>(false, nil)\<close>
  and starts no artifact task; and when the responder's stream store rejects an inbound
  stream, \<open>pairHandler\<close> writes the NAK byte \<open>0x15\<close>, closes the stream and starts no
  artifact task.
\<close>

theorem pair_negotiated_rejection:
  "(NewStream N pid = Inr stream \<and>
    ReadWithTimeout N stream 1 (Timeout c) = Inr (d0 # rest) \<and>
    (d0 = nak \<or> d0 = ack \<and> fst (StoreAdd N (streamstore c) pid stream True) = False)
    \<longrightarrow> (\<exists>c'. pair N pid c = Inr (c', False, None) \<and>
              Close_calls c' = Close_calls c @ [stream] \<and> process_calls c' = process_calls c))
   \<and>
   (fst (StoreAdd N (streamstore c) (RemotePeer N s) s False) = False
    \<longrightarrow> Write_calls (pairHandler N s c) = Write_calls c @ [(s, [0x15])] \<and>
        Close_calls (pairHandler N s c) = Close_calls c @ [s] \<and>
        process_calls (pairHandler N s c) = process_calls c)"
proof (intro conjI impI)
  assume h: "NewStream N pid = Inr stream \<and>
    ReadWithTimeout N stream 1 (Timeout c) = Inr (d0 # rest) \<and>
    (d0 = nak \<or> d0 = ack \<and> fst (StoreAdd N (streamstore c) pid stream True) = False)"
  then consider (n) "d0 = nak"
    | (a) "d0 = ack" "fst (StoreAdd N (streamstore c) pid stream True) = False"
    by blast
  then show "\<exists>c'. pair N pid c = Inr (c', False, None) \<and>
              Close_calls c' = Close_calls c @ [stream] \<and> process_calls c' = process_calls c"
  proof cases
    case n
    with h have "pair N pid c = Inr (c\<lparr>Close_calls := Close_calls c @ [stream]\<rparr>, False, None)"
      by (simp add: pair_nak nak_not_ack)
    then show ?thesis by simp
  next
    case a
    then obtain ss where "StoreAdd N (streamstore c) pid stream True = (False, ss)"
      by (cases "StoreAdd N (streamstore c) pid stream True") simp
    with h a have "pair N pid c =
        Inr (c\<lparr>streamstore := ss, Close_calls := Close_calls c @ [stream]\<rparr>, False, None)"
      by (simp add: pair_store_rejects)
    then show ?thesis by simp
  qed
next
  assume "fst (StoreAdd N (streamstore c) (RemotePeer N s) s False) = False"
  then obtain ss where r: "StoreAdd N (streamstore c) (RemotePeer N s) s False = (False, ss)"
    by (cases "StoreAdd N (streamstore c) (RemotePeer N s) s False") simp
  show "Write_calls (pairHandler N s c) = Write_calls c @ [(s, [0x15])]"
    by (simp add: pairHandler_rejected [OF r] nak_def)
  show "Close_calls (pairHandler N s c) = Close_calls c @ [s]"
    by (simp add: pairHandler_rejected [OF r])
  show "process_calls (pairHandler N s c) = process_calls c"
    by (simp add: pairHandler_rejected [OF r])
qed

text \<open>
  Scenario C on both sides: peer \<open>b\<close> already has a stream in the store, so the inbound
  stream 9 is answered with NAK and an outbound ACK is turned down by the store; and an
  initiator that reads NAK gives up.
\<close>

theorem pair_negotiated_rejection_witness:
  "(\<exists>c'. pair (example_net (\<lambda>p. Inr 7) (\<lambda>s. Inr [nak]) (\<lambda>s bs. None)) ''b'' (example_client [])
            = Inr (c', False, None) \<and>
         Close_calls c' = [7] \<and> process_calls c' = []) \<and>
   (\<exists>c'. pair (example_net (\<lambda>p. Inr 7) (\<lambda>s. Inr [ack]) (\<lambda>s bs. None)) ''b''
             (example_client [(''b'', 3, False)])
            = Inr (c', False, None) \<and>
         Close_calls c' = [7] \<and> process_calls c' = []) \<and>
   Write_calls (pairHandler (example_net (\<lambda>p. Inr 7) (\<lambda>s. Inr [ack]) (\<lambda>s bs. None)) 9
                  (example_client [(''b'', 3, False)])) = [(9, [0x15])] \<and>
   Close_calls (pairHandler (example_net (\<lambda>p. Inr 7) (\<lambda>s. Inr [ack]) (\<lambda>s bs. None)) 9
                  (example_client [(''b'', 3, False)])) = [9] \<and>
   process_calls (pairHandler (example_net (\<lambda>p. Inr 7) (\<lambda>s. Inr [ack]) (\<lambda>s bs. None)) 9
                  (example_client [(''b'', 3, False)])) = []"
proof -
  let ?Nn = "example_net (\<lambda>p. Inr 7) (\<lambda>s. Inr [nak]) (\<lambda>s bs. None)"
  let ?Na = "example_net (\<lambda>p. Inr 7) (\<lambda>s. Inr [ack]) (\<lambda>s bs. None)"
  let ?c0 = "example_client []"
  let ?c1 = "example_client [(''b'', 3, False)]"
  have logs: "Close_calls ?c0 = []" "process_calls ?c0 = []"
    "Close_calls ?c1 = []" "process_calls ?c1 = []" "Write_calls ?c1 = []"
    by (simp_all add: example_client_def)
  have n: "NewStream ?Nn ''b'' = Inr 7 \<and>
           ReadWithTimeout ?Nn 7 1 (Timeout ?c0) = Inr (nak # []) \<and>
           (nak = nak \<or> nak = ack \<and> fst (StoreAdd ?Nn (streamstore ?c0) ''b'' 7 True) = False)"
    by (simp add: example_net_def)
  have a: "NewStream ?Na ''b'' = Inr 7 \<and>
           ReadWithTimeout ?Na 7 1 (Timeout ?c1) = Inr (ack # []) \<and>
           (ack = nak \<or> ack = ack \<and> fst (StoreAdd ?Na (streamstore ?c1) ''b'' 7 True) = False)"
    by (simp add: example_net_def example_client_def list_StoreAdd_def)
  have r: "fst (StoreAdd ?Na (streamstore ?c1) (RemotePeer ?Na 9) 9 False) = False"
    by (simp add: example_net_def example_client_def list_StoreAdd_def)
  from pair_negotiated_rejection [of ?Nn "''b''" 7 ?c0 nak "[]" 9] n
  have 1: "\<exists>c'. pair ?Nn ''b'' ?c0 = Inr (c', False, None) \<and>
              Close_calls c' = [7] \<and> process_calls c' = []"
    by (simp add: logs)
  from pair_negotiated_rejection [of ?Na "''b''" 7 ?c1 ack "[]" 9] a r
  have 2: "(\<exists>c'. pair ?Na ''b'' ?c1 = Inr (c', False, None) \<and>
              Close_calls c' = [7] \<and> process_calls c' = []) \<and>
           Write_calls (pairHandler ?Na 9 ?c1) = [(9, [0x15])] \<and>
           Close_calls (pairHandler ?Na 9 ?c1) = [9] \<and>
           process_calls (pairHandler ?Na 9 ?c1) = []"
    by (simp add: logs)
  from 1 2 show ?thesis by blast
qed

subsection \<open>C9: \<open>ring.Remove\<close> and duplicates\<close>




subsection \<open>C10: \<open>Remove\<close> leaves the estimator alone\<close>

text \<open>
  C10: \<open>Remove(p)\<close> changes the peer set and the rings and nothing else; in particular
  the estimator's state for \<open>p\<close> stays. When \<open>p\<close> is added again, the new probe sample
  is recorded on top of that state, so it is folded into the estimate \<open>p\<close> had before.
\<close>

theorem Remove_keeps_metrics:
  assumes "Remove pid t = Inr t'"
    and "LatencyProbFn (conf t) pid = Inr latency"
  shows "metrics t' = metrics t \<and> conf t' = conf t \<and> latRanges t' = latRanges t \<and>
         shutdown t' = shutdown t \<and>
         metrics (Add M pid t') = RecordLatency M (metrics t) pid latency"
  using assms by (auto simp: Remove_def Add_def split: sum.splits)

text \<open>
  Peer \<open>b\<close> of scenario B, estimated at 15 ms, is removed and added again with a probe
  of 25 ms: its estimate becomes 16 ms, not 25 ms.
\<close>

theorem Remove_keeps_metrics_witness:
  "Remove ''b'' (tableB_populated\<lparr>conf := scenarioA (\<lambda>p. Inr (25 * Millisecond))\<rparr>)
     = Inr (tableB_populated\<lparr>conf := scenarioA (\<lambda>p. Inr (25 * Millisecond)),
                            peers := {''a'', ''c''}, rings := [[''a''], [], [], [''c'']]\<rparr>) \<and>
   metrics (tableB_populated\<lparr>conf := scenarioA (\<lambda>p. Inr (25 * Millisecond)),
                            peers := {''a'', ''c''}, rings := [[''a''], [], [], [''c'']]\<rparr>)
     = [(''a'', 5 * Millisecond), (''b'', 15 * Millisecond), (''c'', 45 * Millisecond)] \<and>
   metrics (Add ewma_Metrics ''b''
              (tableB_populated\<lparr>conf := scenarioA (\<lambda>p. Inr (25 * Millisecond)),
                                peers := {''a'', ''c''}, rings := [[''a''], [], [], [''c'']]\<rparr>))
     = [(''a'', 5 * Millisecond), (''b'', 16 * Millisecond), (''c'', 45 * Millisecond)]"
proof -
  let ?t = "tableB_populated\<lparr>conf := scenarioA (\<lambda>p. Inr (25 * Millisecond))\<rparr>"
  let ?t' = "tableB_populated\<lparr>conf := scenarioA (\<lambda>p. Inr (25 * Millisecond)),
                            peers := {''a'', ''c''}, rings := [[''a''], [], [], [''c'']]\<rparr>"
  have rr: "ring_Remove ''b'' [''a''] = Inr [''a'']" "ring_Remove ''b'' [''b''] = Inr []"
    "ring_Remove ''b'' [] = Inr []" "ring_Remove ''b'' [''c''] = Inr [''c'']"
    by (simp_all add: ring_Remove_def ring_Remove_loop.simps shift_down_def)
  have ps: "peers tableB - {''b''} = {''a'', ''c''}"
    by (auto simp: scenario_defs)
  have h1: "Remove ''b'' ?t = Inr ?t'"
    by (simp add: Remove_def tableB_populated_def rr ps)
  have h2: "LatencyProbFn (conf ?t) ''b'' = Inr (25 * Millisecond)"
    by (simp add: scenarioA_def)
  have m: "metrics ?t = [(''a'', 5 * Millisecond), (''b'', 15 * Millisecond), (''c'', 45 * Millisecond)]"
    by (simp add: tableB_populated_def scenario_defs)
  have r: "RecordLatency ewma_Metrics
             [(''a'', 5 * Millisecond), (''b'', 15 * Millisecond), (''c'', 45 * Millisecond)]
             ''b'' (25 * Millisecond)
           = [(''a'', 5 * Millisecond), (''b'', 16 * Millisecond), (''c'', 45 * Millisecond)]"
    by (simp add: ewma_Metrics_def Millisecond_def)
  show ?thesis
    using Remove_keeps_metrics [OF h1 h2, of ewma_Metrics] h1 m r by simp
qed

end
